theory Spec2Isabelle
  imports
    Main
    "HOL-Library.Word"
    "HOL-Library.Stream"
    "HOL-Library.AList"
    "HOL-Library.Signed_Division"
    "HOL-Library.Monad_Syntax"
begin

unbundle bit_operations_syntax

section \<open>The LFU cache of \<open>src/ctools_lfu.c\<close>\<close>

text \<open>
  The C extension keeps a Python dict from keys to \<open>LFUWrapper\<close> objects. Each wrapper
  holds the stored object, the minute of its last visit and a visit counter, both
  \<open>unsigned int\<close>. The model is for the usual 64-bit platforms: \<open>unsigned int\<close> and
  \<open>uint32_t\<close> are \<open>32 word\<close>, \<open>int\<close> is 32 bits wide, \<open>Py_ssize_t\<close> and
  \<open>long long\<close> are 64 bits wide. Sizes and the hit and miss counters are \<open>int\<close>: a
  dict cannot hold \<open>2^63\<close> entries and a counter cannot be bumped \<open>2^63\<close> times, so
  these never leave the range of \<open>Py_ssize_t\<close>. Where a value is narrowed to the 32-bit
  \<open>int\<close> the narrowing is written out.

  Keys are values of a type with equality (hashable Python objects); failures of memory
  allocation are not modelled, and the callback of \<open>setnx\<close> is taken not to touch the
  cache it is called from.
\<close>

subsection \<open>Errors and objects\<close>

text \<open>
  The exceptions the C code sets, and two outcomes that are not exceptions:
  \<open>NullWithoutException\<close> is a \<open>NULL\<close> result with no exception set (the
  interpreter reports it as a \<open>SystemError\<close>), and \<open>Crash\<close> is undefined
  behaviour of the C program (a \<open>NULL\<close> pointer dereferenced, an integer division by
  zero, a read outside a list), after which nothing is returned to the caller.
\<close>

datatype error =
    KeyError
  | TypeError
  | ValueError
  | OverflowError
  | CallbackError string
  | NullWithoutException
  | Crash

datatype 'v PyObject = Py_None | Obj 'v

subsection \<open>The environment: the wall clock and the C library's \<open>rand\<close>\<close>

text \<open>
  \<open>clock\<close> holds the results of the successive calls of \<open>time(NULL)\<close>, as
  \<open>uint64_t\<close> seconds; \<open>rng\<close> the results of the successive calls of \<open>rand()\<close>,
  which are never negative; \<open>RAND_MAX\<close> is the constant of \<open><stdlib.h>\<close>.
\<close>

record world =
  clock :: "64 word stream"
  rng :: "nat stream"
  RAND_MAX :: nat

definition time_in_minutes :: "world \<Rightarrow> 32 word \<times> world" where
  "time_in_minutes w =
     (ucast ((shd (clock w) div 60) AND 0xFFFFFFFF), w\<lparr>clock := stl (clock w)\<rparr>)"

subsection \<open>LFUWrapper\<close>

record 'v LFUWrapper =
  wrapped :: "'v PyObject"
  last_visit :: "32 word"
  visit_count :: "32 word"

definition LFU_INIT_VAL :: "32 word" where
  "LFU_INIT_VAL = 255"

definition LFU_BUCKET :: int where
  "LFU_BUCKET = 8"

definition LFU_BUCKET_SIZE :: int where
  "LFU_BUCKET_SIZE = 256"

text \<open>\<open>LFUWrapper_new\<close> followed by \<open>LFUWrapper_init\<close>, as calling the type does.\<close>

definition LFUWrapper_init :: "'v PyObject \<Rightarrow> world \<Rightarrow> 'v LFUWrapper \<times> world" where
  "LFUWrapper_init obj w =
     (let (now, w') = time_in_minutes w
      in (\<lparr>wrapped = obj, last_visit = now, visit_count = LFU_INIT_VAL\<rparr>, w'))"

definition LFUWrapper_UPDATE_WEIGHT :: "'v LFUWrapper \<Rightarrow> world \<Rightarrow> 'v LFUWrapper \<times> world" where
  "LFUWrapper_UPDATE_WEIGHT self w =
     (let self1 = self\<lparr>visit_count := visit_count self + 1\<rparr>;
          (now, w') = time_in_minutes w
      in (self1\<lparr>last_visit := now\<rparr>, w'))"

definition LFUWrapper_wrapped ::
  "'v LFUWrapper \<Rightarrow> world \<Rightarrow> 'v PyObject \<times> 'v LFUWrapper \<times> world" where
  "LFUWrapper_wrapped self w =
     (let (self', w') = LFUWrapper_UPDATE_WEIGHT self w
      in (wrapped self', self', w'))"

definition LFUWrapper_WEIGHT :: "'v LFUWrapper \<Rightarrow> 32 word \<Rightarrow> 32 word" where
  "LFUWrapper_WEIGHT self now =
     (let counter = visit_count self;
          num = now - last_visit self
      in if num > counter then 0 else counter - num)"

subsection \<open>The dict\<close>

text \<open>
  A Python dict is an association list in insertion order with distinct keys:
  \<open>PyDict_Next\<close>, \<open>PyDict_Keys\<close>, \<open>PyDict_Values\<close> and \<open>PyDict_Items\<close> go
  through it in that order, \<open>PyDict_SetItem\<close> replaces the object of a key that is
  present and appends a new key at the end, \<open>PyDict_DelItem\<close> raises \<open>KeyError\<close> for
  a key that is absent.
\<close>

definition PyDict_GetItem :: "('k \<times> 'a) list \<Rightarrow> 'k \<Rightarrow> 'a option" where
  "PyDict_GetItem d key = map_of d key"

definition PyDict_SetItem :: "('k \<times> 'a) list \<Rightarrow> 'k \<Rightarrow> 'a \<Rightarrow> ('k \<times> 'a) list" where
  "PyDict_SetItem d key obj = AList.update key obj d"

definition PyDict_DelItem :: "('k \<times> 'a) list \<Rightarrow> 'k \<Rightarrow> error + ('k \<times> 'a) list" where
  "PyDict_DelItem d key =
     (case map_of d key of
        None \<Rightarrow> Inl KeyError
      | Some obj \<Rightarrow> Inr (AList.delete key d))"

definition PyDict_Size :: "('k \<times> 'a) list \<Rightarrow> int" where
  "PyDict_Size d = int (length d)"

definition PyDict_Keys :: "('k \<times> 'a) list \<Rightarrow> 'k list" where
  "PyDict_Keys d = map fst d"

text \<open>
  The wrappers are heap objects and the dict holds pointers to them: a write through the
  pointer that was fetched for \<open>key\<close> changes the entry of \<open>key\<close> where it stands.
\<close>

definition wrapper_store ::
  "('k \<times> 'v LFUWrapper) list \<Rightarrow> 'k \<Rightarrow> 'v LFUWrapper \<Rightarrow> ('k \<times> 'v LFUWrapper) list" where
  "wrapper_store d key wrapper = map (\<lambda>(k, x). if k = key then (k, wrapper) else (k, x)) d"

subsection \<open>LFUCache\<close>

record ('k, 'v) LFUCache =
  dict :: "('k \<times> 'v LFUWrapper) list"
  capacity :: int
  hits :: int
  misses :: int

definition PyLFUCache_Size :: "('k, 'v) LFUCache \<Rightarrow> int" where
  "PyLFUCache_Size self = PyDict_Size (dict self)"

definition PyLFUCache_GetItem :: "('k, 'v) LFUCache \<Rightarrow> 'k \<Rightarrow> 'v LFUWrapper option" where
  "PyLFUCache_GetItem self key = PyDict_GetItem (dict self) key"

definition LFUCache_Contains :: "('k, 'v) LFUCache \<Rightarrow> 'k \<Rightarrow> bool \<times> ('k, 'v) LFUCache" where
  "LFUCache_Contains self key = (PyDict_GetItem (dict self) key \<noteq> None, self)"

text \<open>
  \<open>rand_limit\<close>: the loop draws until a quotient is at most \<open>limit\<close>, and need not
  end; \<open>None\<close> is the loop that never ends. C's division truncates (\<open>sdiv\<close>) and a
  zero divisor is undefined behaviour. \<open>RAND_MAX\<close> fits an \<open>int\<close>, so the quotient
  by \<open>INT_MAX + 1\<close> is the zero divisor as well.
\<close>

partial_function (option) rand_limit_loop ::
  "int \<Rightarrow> int \<Rightarrow> nat stream \<Rightarrow> (int \<times> nat stream) option" where
  "rand_limit_loop divisor limit s =
     (if int (shd s) sdiv divisor > limit
      then rand_limit_loop divisor limit (stl s)
      else Some (int (shd s) sdiv divisor, stl s))"

declare rand_limit_loop.simps [code]

definition rand_limit :: "int \<Rightarrow> world \<Rightarrow> ((error + int) \<times> world) option" where
  "rand_limit limit w =
     (if limit + 1 = 0 then Some (Inl Crash, w)
      else let divisor = int (RAND_MAX w) sdiv (limit + 1)
        in if divisor = 0 then Some (Inl Crash, w)
           else map_option (\<lambda>(rv, s). (Inr rv, w\<lparr>rng := s\<rparr>))
                  (rand_limit_loop divisor limit (rng w)))"

text \<open>
  The exact scan of \<open>LFUCache_lfu\<close>: the \<open>while (PyDict_Next ...)\<close> loop, with the
  running \<open>min\<close> (here \<open>mn\<close>) and \<open>rv\<close>; \<open>rv\<close> is \<open>None\<close> while it is
  \<open>NULL\<close>.
\<close>

fun lfu_scan ::
  "32 word \<Rightarrow> ('k \<times> 'v LFUWrapper) list \<Rightarrow> 32 word \<Rightarrow> 'k option \<Rightarrow> 32 word \<times> 'k option" where
  "lfu_scan now [] mn rv = (mn, rv)"
| "lfu_scan now ((key, wrapper) # rest) mn rv =
     (let weight = LFUWrapper_WEIGHT wrapper now
      in if mn = 0 \<or> weight < mn
         then lfu_scan now rest weight (Some key)
         else lfu_scan now rest mn rv)"

text \<open>
  The sampling loop of \<open>LFUCache_lfu\<close>, \<open>for (int i = 0; i < LFU_BUCKET - 1; i++)\<close>,
  with \<open>n\<close> rounds left; \<open>key\<close> is the variable that the remainder step reads after
  the loop. \<open>PyList_GET_ITEM\<close> does not check its index.
\<close>

fun lfu_buckets ::
  "('k \<times> 'v LFUWrapper) list \<Rightarrow> 'k list \<Rightarrow> int \<Rightarrow> 32 word \<Rightarrow> int \<Rightarrow> nat
    \<Rightarrow> 32 word \<Rightarrow> 'k option \<Rightarrow> 'k option \<Rightarrow> world
    \<Rightarrow> ((error + 32 word \<times> 'k option \<times> 'k option) \<times> world) option" where
  "lfu_buckets d keylist b_size now i 0 mn rv key w = Some (Inr (mn, rv, key), w)"
| "lfu_buckets d keylist b_size now i (Suc n) mn rv key w =
     do {
       (r, w') \<leftarrow> rand_limit (sint (word_of_int b_size :: 32 word)) w;
       case r of
         Inl e \<Rightarrow> Some (Inl e, w')
       | Inr off \<Rightarrow>
           let pos = i * b_size + off
           in if pos < 0 \<or> int (length keylist) \<le> pos then Some (Inl Crash, w')
              else
                (case PyDict_GetItem d (keylist ! nat pos) of
                   None \<Rightarrow> Some (Inl Crash, w')
                 | Some wrapper \<Rightarrow>
                     let weight = LFUWrapper_WEIGHT wrapper now
                     in if mn = 0 \<or> weight < mn
                        then lfu_buckets d keylist b_size now (i + 1) n
                               weight (Some (keylist ! nat pos)) (Some (keylist ! nat pos)) w'
                        else lfu_buckets d keylist b_size now (i + 1) n
                               mn rv (Some (keylist ! nat pos)) w')
     }"

text \<open>\<open>assert(rv); Py_INCREF(rv); return rv;\<close>\<close>

definition lfu_return :: "'k option \<Rightarrow> world \<Rightarrow> ((error + 'k) \<times> world) option" where
  "lfu_return rv w = (case rv of None \<Rightarrow> Some (Inl Crash, w) | Some key \<Rightarrow> Some (Inr key, w))"

definition LFUCache_lfu :: "('k, 'v) LFUCache \<Rightarrow> world \<Rightarrow> ((error + 'k) \<times> world) option" where
  "LFUCache_lfu self w =
     (let (now, w1) = time_in_minutes w;
          dict_len = PyLFUCache_Size self
      in if dict_len = 0 then Some (Inl KeyError, w1)
         else if dict_len < LFU_BUCKET_SIZE
         then lfu_return (snd (lfu_scan now (dict self) 0 None)) w1
         else
           let keylist = PyDict_Keys (dict self);
               b_size = dict_len div LFU_BUCKET
           in do {
             (r, w2) \<leftarrow> lfu_buckets (dict self) keylist b_size now 0 (nat (LFU_BUCKET - 1))
                           0 None None w1;
             case r of
               Inl e \<Rightarrow> Some (Inl e, w2)
             | Inr (mn, rv, key) \<Rightarrow>
                 if dict_len mod LFU_BUCKET = 0 then lfu_return rv w2
                 else
                   let pos = LFU_BUCKET * b_size + (dict_len - LFU_BUCKET * b_size) div 2
                   in if pos < 0 \<or> int (length keylist) \<le> pos then Some (Inl Crash, w2)
                      else
                        (case PyDict_GetItem (dict self) (keylist ! nat pos) of
                           None \<Rightarrow> Some (Inl Crash, w2)
                         | Some wrapper \<Rightarrow>
                             let weight = LFUWrapper_WEIGHT wrapper now
                             in if mn = 0 \<or> weight < mn then lfu_return key w2
                                else lfu_return rv w2)
           })"

text \<open>
  \<open>LFUCache_evict\<close>: a \<open>NULL\<close> from \<open>LFUCache_lfu\<close> is cleared and answered with
  \<open>None\<close>; a crash inside it is not a \<open>NULL\<close> and is not caught.
\<close>

definition LFUCache_evict ::
  "('k, 'v) LFUCache \<Rightarrow> world \<Rightarrow> ((error + 'v PyObject) \<times> ('k, 'v) LFUCache \<times> world) option" where
  "LFUCache_evict self w =
     do {
       (k, w') \<leftarrow> LFUCache_lfu self w;
       case k of
         Inl e \<Rightarrow> if e = Crash then Some (Inl Crash, self, w') else Some (Inr Py_None, self, w')
       | Inr key \<Rightarrow>
           (case PyDict_DelItem (dict self) key of
              Inl e \<Rightarrow> Some (Inl KeyError, self, w')
            | Inr d' \<Rightarrow> Some (Inr Py_None, self\<lparr>dict := d'\<rparr>, w'))
     }"

text \<open>The \<open>int\<close> results: \<open>Inr ()\<close> is 0, \<open>Inl e\<close> is -1 with the exception \<open>e\<close> set.\<close>

definition PyLFUCache_DelItem ::
  "('k, 'v) LFUCache \<Rightarrow> 'k \<Rightarrow> (error + unit) \<times> ('k, 'v) LFUCache" where
  "PyLFUCache_DelItem self key =
     (case PyLFUCache_GetItem self key of
        None \<Rightarrow> (Inl TypeError, self)
      | Some wrapper \<Rightarrow>
          (case PyDict_DelItem (dict self) key of
             Inl e \<Rightarrow> (Inl e, self)
           | Inr d' \<Rightarrow> (Inr (), self\<lparr>dict := d'\<rparr>)))"

definition PyLFUCache_SetItem ::
  "('k, 'v) LFUCache \<Rightarrow> 'k \<Rightarrow> 'v PyObject \<Rightarrow> world
    \<Rightarrow> ((error + unit) \<times> ('k, 'v) LFUCache \<times> world) option" where
  "PyLFUCache_SetItem self key val w =
     (case PyDict_GetItem (dict self) key of
        Some wrapper \<Rightarrow>
          Some (Inr (), self\<lparr>dict := wrapper_store (dict self) key (wrapper\<lparr>wrapped := val\<rparr>)\<rparr>, w)
      | None \<Rightarrow>
          do {
            (r, self1, w1) \<leftarrow>
              (if PyLFUCache_Size self + 1 > capacity self then LFUCache_evict self w
               else Some (Inr Py_None, self, w));
            case r of
              Inl e \<Rightarrow> Some (Inl e, self1, w1)
            | Inr none \<Rightarrow>
                let (wrapper, w2) = LFUWrapper_init val w1
                in Some (Inr (), self1\<lparr>dict := PyDict_SetItem (dict self1) key wrapper\<rparr>, w2)
          })"

definition PyLFUCache_Clear :: "('k, 'v) LFUCache \<Rightarrow> ('k, 'v) LFUCache" where
  "PyLFUCache_Clear self = self\<lparr>dict := [], misses := 0, hits := 0\<rparr>"

text \<open>
  \<open>LFUCache_new\<close> followed by \<open>LFUCache_init\<close>; the format \<open>"n"\<close> refuses an
  integer outside \<open>Py_ssize_t\<close>.
\<close>

definition LFUCache_init :: "int \<Rightarrow> error + ('k, 'v) LFUCache" where
  "LFUCache_init cap =
     (if cap < - (2 ^ 63) \<or> 2 ^ 63 \<le> cap then Inl OverflowError
      else if cap \<le> 0 then Inl ValueError
      else Inr \<lparr>dict = [], capacity = cap, hits = 0, misses = 0\<rparr>)"

text \<open>\<open>mp_subscript\<close>, that is \<open>cache[key]\<close>.\<close>

definition LFUCache_mp_subscript ::
  "('k, 'v) LFUCache \<Rightarrow> 'k \<Rightarrow> world \<Rightarrow> (error + 'v PyObject) \<times> ('k, 'v) LFUCache \<times> world" where
  "LFUCache_mp_subscript self key w =
     (case PyLFUCache_GetItem self key of
        None \<Rightarrow> (Inl KeyError, self\<lparr>misses := misses self + 1\<rparr>, w)
      | Some wrapper \<Rightarrow>
          let self1 = self\<lparr>hits := hits self + 1\<rparr>;
              (obj, wrapper', w') = LFUWrapper_wrapped wrapper w
          in (Inr obj, self1\<lparr>dict := wrapper_store (dict self1) key wrapper'\<rparr>, w'))"

text \<open>\<open>mp_ass_subscript\<close>: \<open>del cache[key]\<close> passes no value.\<close>

definition LFUCache_mp_ass_sub ::
  "('k, 'v) LFUCache \<Rightarrow> 'k \<Rightarrow> 'v PyObject option \<Rightarrow> world
    \<Rightarrow> ((error + unit) \<times> ('k, 'v) LFUCache \<times> world) option" where
  "LFUCache_mp_ass_sub self key val w =
     (case val of
        None \<Rightarrow> (let (r, self') = PyLFUCache_DelItem self key in Some (r, self', w))
      | Some v \<Rightarrow> PyLFUCache_SetItem self key v w)"

text \<open>\<open>Py_BuildValue("iii", ...)\<close> reads each argument as a C \<open>int\<close>.\<close>

definition LFUCache_hints :: "('k, 'v) LFUCache \<Rightarrow> (int \<times> int \<times> int) \<times> ('k, 'v) LFUCache" where
  "LFUCache_hints self =
     ((sint (word_of_int (capacity self) :: 32 word),
       sint (word_of_int (hits self) :: 32 word),
       sint (word_of_int (misses self) :: 32 word)), self)"

definition LFUCache_keys :: "('k, 'v) LFUCache \<Rightarrow> 'k list \<times> ('k, 'v) LFUCache" where
  "LFUCache_keys self = (PyDict_Keys (dict self), self)"

text \<open>
  The loops of \<open>LFUCache_values\<close> and \<open>LFUCache_items\<close>: every wrapper of the dict is
  read through \<open>LFUWrapper_wrapped\<close>, in the order of the dict.
\<close>

fun values_loop ::
  "('k \<times> 'v LFUWrapper) list \<Rightarrow> world
    \<Rightarrow> 'v PyObject list \<times> ('k \<times> 'v LFUWrapper) list \<times> world" where
  "values_loop [] w = ([], [], w)"
| "values_loop ((key, wrapper) # rest) w =
     (let (obj, wrapper', w1) = LFUWrapper_wrapped wrapper w;
          (objs, rest', w2) = values_loop rest w1
      in (obj # objs, (key, wrapper') # rest', w2))"

definition LFUCache_values ::
  "('k, 'v) LFUCache \<Rightarrow> world \<Rightarrow> 'v PyObject list \<times> ('k, 'v) LFUCache \<times> world" where
  "LFUCache_values self w =
     (let (objs, d', w') = values_loop (dict self) w
      in (objs, self\<lparr>dict := d'\<rparr>, w'))"

definition LFUCache_items ::
  "('k, 'v) LFUCache \<Rightarrow> world \<Rightarrow> ('k \<times> 'v PyObject) list \<times> ('k, 'v) LFUCache \<times> world" where
  "LFUCache_items self w =
     (let (objs, d', w') = values_loop (dict self) w
      in (zip (PyDict_Keys (dict self)) objs, self\<lparr>dict := d'\<rparr>, w'))"

definition LFUCache_tp_iter :: "('k, 'v) LFUCache \<Rightarrow> 'k list \<times> ('k, 'v) LFUCache" where
  "LFUCache_tp_iter self = LFUCache_keys self"

text \<open>\<open>get(key, default)\<close>; \<open>dflt\<close> is \<open>None\<close> when no default is passed.\<close>

definition LFUCache_get ::
  "('k, 'v) LFUCache \<Rightarrow> 'k \<Rightarrow> 'v PyObject option \<Rightarrow> (error + 'v PyObject) \<times> ('k, 'v) LFUCache" where
  "LFUCache_get self key dflt =
     (case PyLFUCache_GetItem self key of
        None \<Rightarrow> (case dflt of None \<Rightarrow> (Inr Py_None, self) | Some d \<Rightarrow> (Inr d, self))
      | Some result \<Rightarrow> (Inr (wrapped result), self))"

text \<open>
  \<open>pop(key, default)\<close>. \<open>if (!PyLFUCache_DelItem(self, key)) return NULL;\<close> is taken
  when \<open>PyLFUCache_DelItem\<close> returns 0, which is its success; no exception is set on
  that path. (The wrapper is read once more after the deletion, only to drop a reference.)
\<close>

definition LFUCache_pop ::
  "('k, 'v) LFUCache \<Rightarrow> 'k \<Rightarrow> 'v PyObject option \<Rightarrow> (error + 'v PyObject) \<times> ('k, 'v) LFUCache" where
  "LFUCache_pop self key dflt =
     (case PyLFUCache_GetItem self key of
        None \<Rightarrow> (case dflt of None \<Rightarrow> (Inr Py_None, self) | Some d \<Rightarrow> (Inr d, self))
      | Some result \<Rightarrow>
          (case PyLFUCache_DelItem self key of
             (Inr u, self') \<Rightarrow> (Inl NullWithoutException, self')
           | (Inl e, self') \<Rightarrow> (Inr (wrapped result), self')))"

definition LFUCache_setdefault ::
  "('k, 'v) LFUCache \<Rightarrow> 'k \<Rightarrow> 'v PyObject option \<Rightarrow> world
    \<Rightarrow> ((error + 'v PyObject) \<times> ('k, 'v) LFUCache \<times> world) option" where
  "LFUCache_setdefault self key dflt w =
     (case PyLFUCache_GetItem self key of
        None \<Rightarrow>
          let d = (case dflt of None \<Rightarrow> Py_None | Some x \<Rightarrow> x)
          in do {
            (r, self', w') \<leftarrow> PyLFUCache_SetItem self key d w;
            case r of
              Inl e \<Rightarrow> Some (Inl e, self', w')
            | Inr u \<Rightarrow> Some (Inr d, self', w')
          }
      | Some result \<Rightarrow>
          let (obj, result', w') = LFUWrapper_wrapped result w
          in Some (Inr obj, self\<lparr>dict := wrapper_store (dict self) key result'\<rparr>, w'))"

text \<open>
  The callback of \<open>setnx\<close> is given by what \<open>PyObject_CallFunction\<close> gives back when
  it is called: an object, or \<open>NULL\<close> with the exception it raised. \<open>Py_INCREF\<close>
  dereferences its argument without a test.
\<close>

datatype 'v callback = NotCallable | Callable "error + 'v PyObject"

definition LFUCache_setnx ::
  "('k, 'v) LFUCache \<Rightarrow> 'k \<Rightarrow> 'v callback \<Rightarrow> world
    \<Rightarrow> ((error + 'v PyObject) \<times> ('k, 'v) LFUCache \<times> world) option" where
  "LFUCache_setnx self key cb w =
     (case cb of
        NotCallable \<Rightarrow> Some (Inl TypeError, self, w)
      | Callable call \<Rightarrow>
          (case PyLFUCache_GetItem self key of
             None \<Rightarrow>
               (case call of
                  Inl raised \<Rightarrow> Some (Inl Crash, self, w)
                | Inr d \<Rightarrow>
                    do {
                      (r, self', w') \<leftarrow> PyLFUCache_SetItem self key d w;
                      case r of
                        Inl e \<Rightarrow> Some (Inl e, self', w')
                      | Inr u \<Rightarrow> Some (Inr d, self', w')
                    })
           | Some result \<Rightarrow>
               let (obj, result', w') = LFUWrapper_wrapped result w
               in Some (Inr obj, self\<lparr>dict := wrapper_store (dict self) key result'\<rparr>, w')))"

text \<open>
  \<open>update(arg, **kwargs)\<close>, both dicts given by their items in order (dicts without
  deleted slots; an \<open>arg\<close> that is missing or is no dict is the empty list). The
  position \<open>pos\<close> is not reset between the two \<open>PyDict_Next\<close> loops, so the second
  loop starts behind as many entries as the first loop has read.
\<close>

fun update_loop ::
  "('k \<times> 'v PyObject) list \<Rightarrow> ('k, 'v) LFUCache \<Rightarrow> world
    \<Rightarrow> ((error + unit) \<times> ('k, 'v) LFUCache \<times> world) option" where
  "update_loop [] self w = Some (Inr (), self, w)"
| "update_loop ((key, val) # rest) self w =
     do {
       (r, self', w') \<leftarrow> PyLFUCache_SetItem self key val w;
       case r of
         Inl e \<Rightarrow> Some (Inl e, self', w')
       | Inr u \<Rightarrow> update_loop rest self' w'
     }"

definition LFUCache_update ::
  "('k, 'v) LFUCache \<Rightarrow> ('k \<times> 'v PyObject) list \<Rightarrow> ('k \<times> 'v PyObject) list \<Rightarrow> world
    \<Rightarrow> ((error + 'v PyObject) \<times> ('k, 'v) LFUCache \<times> world) option" where
  "LFUCache_update self arg kwargs w =
     do {
       (r, self1, w1) \<leftarrow> update_loop arg self w;
       case r of
         Inl e \<Rightarrow> Some (Inl e, self1, w1)
       | Inr u \<Rightarrow>
           do {
             (r2, self2, w2) \<leftarrow> update_loop (drop (length arg) kwargs) self1 w1;
             case r2 of
               Inl e \<Rightarrow> Some (Inl e, self2, w2)
             | Inr u2 \<Rightarrow> Some (Inr Py_None, self2, w2)
           }
     }"

text \<open>
  \<open>set_capacity\<close>. \<open>PyLong_AsLongLong\<close> raises \<open>OverflowError\<close> outside
  \<open>long long\<close>. The number of evictions is stored in \<open>int r\<close>, which keeps the low
  32 bits of the difference; the loop \<open>for (int i = 0; i < r; ++i)\<close> runs \<open>r\<close> times
  when \<open>r\<close> is positive and not at all otherwise.
\<close>

fun evict_loop ::
  "nat \<Rightarrow> ('k, 'v) LFUCache \<Rightarrow> world
    \<Rightarrow> ((error + 'v PyObject) \<times> ('k, 'v) LFUCache \<times> world) option" where
  "evict_loop 0 self w = Some (Inr Py_None, self, w)"
| "evict_loop (Suc n) self w =
     do {
       (r, self', w') \<leftarrow> LFUCache_evict self w;
       case r of
         Inl e \<Rightarrow> Some (Inl e, self', w')
       | Inr none \<Rightarrow> evict_loop n self' w'
     }"

definition LFUCache_set_capacity ::
  "('k, 'v) LFUCache \<Rightarrow> int \<Rightarrow> world
    \<Rightarrow> ((error + 'v PyObject) \<times> ('k, 'v) LFUCache \<times> world) option" where
  "LFUCache_set_capacity self cap w =
     (if cap < - (2 ^ 63) \<or> 2 ^ 63 \<le> cap then Some (Inl OverflowError, self, w)
      else if cap \<le> 0 then Some (Inl ValueError, self, w)
      else
        do {
          (r, self1, w1) \<leftarrow>
            (if cap < capacity self \<and> PyLFUCache_Size self > cap
             then evict_loop (nat (sint (word_of_int (PyLFUCache_Size self - cap) :: 32 word))) self w
             else Some (Inr Py_None, self, w));
          case r of
            Inl e \<Rightarrow> Some (Inl e, self1, w1)
          | Inr none \<Rightarrow> Some (Inr Py_None, self1\<lparr>capacity := cap\<rparr>, w1)
        })"

definition LFUCache_clear :: "('k, 'v) LFUCache \<Rightarrow> 'v PyObject \<times> ('k, 'v) LFUCache" where
  "LFUCache_clear self = (Py_None, PyLFUCache_Clear self)"

subsection \<open>Victim selection as the spec words it\<close>

text \<open>
  For fewer than 256 entries the spec asks for the entry with the strictly smallest weight,
  ties broken by the first one met in iteration order, found with an explicit "found so far"
  value instead of the sentinel 0. \<open>spec_victim\<close> follows these words; it is what
  \<open>LFUCache_lfu\<close> is compared with, and no operation of the model calls it.
\<close>

fun spec_victim_scan ::
  "32 word \<Rightarrow> ('k \<times> 'v LFUWrapper) list \<Rightarrow> ('k \<times> 32 word) option
    \<Rightarrow> ('k \<times> 32 word) option" where
  "spec_victim_scan now [] best = best"
| "spec_victim_scan now ((key, wrapper) # rest) best =
     (let weight = LFUWrapper_WEIGHT wrapper now
      in case best of
           None \<Rightarrow> spec_victim_scan now rest (Some (key, weight))
         | Some (k, m) \<Rightarrow>
             if weight < m then spec_victim_scan now rest (Some (key, weight))
             else spec_victim_scan now rest (Some (k, m)))"

definition spec_victim :: "32 word \<Rightarrow> ('k \<times> 'v LFUWrapper) list \<Rightarrow> 'k option" where
  "spec_victim now d = map_option fst (spec_victim_scan now d None)"

subsection \<open>Invariant, counters and example states\<close>

text \<open>
  The invariant of the data model: the keys of the dict are distinct, the capacity is
  positive and the dict holds at most \<open>capacity\<close> entries.
\<close>

definition cache_inv :: "('k, 'v) LFUCache \<Rightarrow> bool" where
  "cache_inv self =
     (distinct (PyDict_Keys (dict self)) \<and> 0 < capacity self
      \<and> PyLFUCache_Size self \<le> capacity self)"

definition counters :: "('k, 'v) LFUCache \<Rightarrow> int \<times> int" where
  "counters self = (hits self, misses self)"

text \<open>
  The states of the examples. In \<open>cache_ab\<close> the entry \<open>a\<close> was stored in minute 0
  and the entry \<open>b\<close> in minute 256; \<open>world_256\<close> is a world whose clock stands at
  second 15360, which is minute 256.
\<close>

definition entry_a :: "nat LFUWrapper" where
  "entry_a = \<lparr>wrapped = Obj 1, last_visit = 0, visit_count = 255\<rparr>"

definition entry_b :: "nat LFUWrapper" where
  "entry_b = \<lparr>wrapped = Obj 2, last_visit = 256, visit_count = 255\<rparr>"

definition cache_ab :: "(string, nat) LFUCache" where
  "cache_ab = \<lparr>dict = [(''a'', entry_a), (''b'', entry_b)], capacity = 2, hits = 0, misses = 0\<rparr>"

definition world_256 :: world where
  "world_256 = \<lparr>clock = sconst 15360, rng = sconst 0, RAND_MAX = 2147483647\<rparr>"

text \<open>
  A cache of \<open>2^31 + 1\<close> entries, filled to its capacity.
\<close>

definition cache_huge :: "(nat, nat) LFUCache" where
  "cache_huge =
     \<lparr>dict = map (\<lambda>i. (i, \<lparr>wrapped = Py_None, last_visit = 0, visit_count = 255\<rparr>))
               [0 ..< 2147483649],
      capacity = 2147483649, hits = 0, misses = 0\<rparr>"

section \<open>Properties\<close>

subsection \<open>Facts about the dict\<close>

lemmas example_defs = cache_ab_def entry_a_def entry_b_def world_256_def

lemmas eval_defs =
  PyLFUCache_SetItem_def PyDict_GetItem_def PyLFUCache_Size_def PyDict_Size_def
  LFUCache_evict_def LFUCache_lfu_def LFUWrapper_init_def time_in_minutes_def LFU_INIT_VAL_def
  LFU_BUCKET_SIZE_def LFUWrapper_WEIGHT_def PyDict_SetItem_def PyDict_DelItem_def lfu_return_def
  AList.delete_eq PyLFUCache_GetItem_def PyLFUCache_DelItem_def wrapper_store_def
  LFUWrapper_wrapped_def LFUWrapper_UPDATE_WEIGHT_def PyDict_Keys_def

lemma map_fst_wrapper_store: "map fst (wrapper_store d key wr) = map fst d"
  by (induction d) (auto simp: wrapper_store_def)

lemma length_wrapper_store: "length (wrapper_store d key wr) = length d"
  by (simp add: wrapper_store_def)

lemma map_of_wrapper_store_same:
  "map_of d key = Some x \<Longrightarrow> map_of (wrapper_store d key wr) key = Some wr"
  by (induction d) (auto simp: wrapper_store_def split: if_splits)

lemma map_of_wrapper_store_other:
  "k \<noteq> key \<Longrightarrow> map_of (wrapper_store d key wr) k = map_of d k"
  by (induction d) (auto simp: wrapper_store_def)

lemma map_of_present: "key \<in> fst ` set d \<Longrightarrow> \<exists>x. map_of d key = Some x"
  by (metis weak_map_of_SomeI map_of_eq_None_iff not_Some_eq)

lemma length_delete_present:
  "distinct (map fst d) \<Longrightarrow> map_of d key = Some x
    \<Longrightarrow> Suc (length (AList.delete key d)) = length d"
proof (induction d)
  case Nil
  then show ?case by simp
next
  case (Cons p d)
  show ?case
  proof (cases "fst p = key")
    case True
    with Cons.prems have "key \<notin> fst ` set d" by auto
    then have "AList.delete key d = d"
      by (simp add: AList.delete_eq filter_id_conv split_beta) (metis fst_conv imageI prod.collapse)
    with True show ?thesis by (simp add: AList.delete_eq split_beta)
  next
    case False
    with Cons show ?thesis by (auto simp: AList.delete_eq split_beta)
  qed
qed

subsection \<open>Weights\<close>

text \<open>
  C8. An entry that is not visited again keeps its \<open>visit_count\<close> and \<open>last_visit\<close>.
  For times \<open>t1 < t2\<close> not before \<open>last_visit\<close> its weight at \<open>t2\<close> is at most its
  weight at \<open>t1\<close>, and at each such time the weight is \<open>visit_count\<close> minus the
  elapsed minutes when the elapsed minutes do not exceed \<open>visit_count\<close>, and 0 otherwise.
\<close>

theorem LFUWrapper_WEIGHT_decays:
  assumes "last_visit self \<le> t1" and "t1 < t2"
  shows "LFUWrapper_WEIGHT self t2 \<le> LFUWrapper_WEIGHT self t1
    \<and> unat (LFUWrapper_WEIGHT self t1) =
        (if unat t1 - unat (last_visit self) \<le> unat (visit_count self)
         then unat (visit_count self) - (unat t1 - unat (last_visit self)) else 0)
    \<and> unat (LFUWrapper_WEIGHT self t2) =
        (if unat t2 - unat (last_visit self) \<le> unat (visit_count self)
         then unat (visit_count self) - (unat t2 - unat (last_visit self)) else 0)"
proof -
  from assms have le2: "last_visit self \<le> t2" by simp
  have n1: "unat (t1 - last_visit self) = unat t1 - unat (last_visit self)"
    using assms(1) by (simp add: unat_sub)
  have n2: "unat (t2 - last_visit self) = unat t2 - unat (last_visit self)"
    using le2 by (simp add: unat_sub)
  have lt: "unat t1 < unat t2" and le: "unat (last_visit self) \<le> unat t1"
    using assms by (simp_all add: word_less_nat_alt word_le_nat_alt)
  have f1: "unat (LFUWrapper_WEIGHT self t1) =
        (if unat t1 - unat (last_visit self) \<le> unat (visit_count self)
         then unat (visit_count self) - (unat t1 - unat (last_visit self)) else 0)"
    using n1 by (auto simp: LFUWrapper_WEIGHT_def Let_def word_less_nat_alt word_le_nat_alt unat_sub)
  have f2: "unat (LFUWrapper_WEIGHT self t2) =
        (if unat t2 - unat (last_visit self) \<le> unat (visit_count self)
         then unat (visit_count self) - (unat t2 - unat (last_visit self)) else 0)"
    using n2 by (auto simp: LFUWrapper_WEIGHT_def Let_def word_less_nat_alt word_le_nat_alt unat_sub)
  have "unat (LFUWrapper_WEIGHT self t2) \<le> unat (LFUWrapper_WEIGHT self t1)"
    unfolding f1 f2 using lt le by auto
  then show ?thesis using f1 f2 by (simp add: word_le_nat_alt)
qed

theorem LFUWrapper_WEIGHT_decays_witness:
  "last_visit \<lparr>wrapped = Obj (1::nat), last_visit = 10, visit_count = 255\<rparr> \<le> 20
   \<and> (20::32 word) < 300
   \<and> LFUWrapper_WEIGHT \<lparr>wrapped = Obj (1::nat), last_visit = 10, visit_count = 255\<rparr> 20 = 245
   \<and> LFUWrapper_WEIGHT \<lparr>wrapped = Obj (1::nat), last_visit = 10, visit_count = 255\<rparr> 300 = 0
   \<and> LFUWrapper_WEIGHT \<lparr>wrapped = Obj (1::nat), last_visit = 10, visit_count = 255\<rparr> 300
       \<le> LFUWrapper_WEIGHT \<lparr>wrapped = Obj (1::nat), last_visit = 10, visit_count = 255\<rparr> 20"
  using LFUWrapper_WEIGHT_decays
    [of "\<lparr>wrapped = Obj (1::nat), last_visit = 10, visit_count = 255\<rparr>" 20 300]
  by (simp add: LFUWrapper_WEIGHT_def)

subsection \<open>Victim selection, exact scan\<close>

text \<open>
  C1. The claim: below 256 entries \<open>LFUCache_lfu\<close> returns the key of the first entry
  of least weight, so an entry of weight 0 is chosen before any entry of positive weight.
  The code does not do that. Its running minimum starts at 0 and 0 also means "no minimum
  yet": after an entry of weight 0 the test \<open>min == 0\<close> holds again and the next entry
  replaces it, whatever its weight. In the run below a cache of capacity 2 receives \<open>a\<close>
  in minute 0 and \<open>b\<close> in minute 256; in minute 256 the weight of \<open>a\<close> is 0 and the
  weight of \<open>b\<close> is 255, \<open>LFUCache_lfu\<close> returns \<open>b\<close>, and storing \<open>c\<close> evicts
  \<open>b\<close> and keeps \<open>a\<close>.
\<close>

theorem LFUCache_lfu_passes_over_zero_weight:
  "LFUCache_init 2 = Inr \<lparr>dict = [], capacity = 2, hits = 0, misses = 0\<rparr>
   \<and> PyLFUCache_SetItem \<lparr>dict = [], capacity = 2, hits = 0, misses = 0\<rparr> ''a'' (Obj 1)
        (world_256\<lparr>clock := 0 ## sconst 15360\<rparr>)
       = Some (Inr (), \<lparr>dict = [(''a'', entry_a)], capacity = 2, hits = 0, misses = 0\<rparr>, world_256)
   \<and> PyLFUCache_SetItem \<lparr>dict = [(''a'', entry_a)], capacity = 2, hits = 0, misses = 0\<rparr>
        ''b'' (Obj 2) world_256
       = Some (Inr (), cache_ab, world_256)
   \<and> PyLFUCache_Size cache_ab < LFU_BUCKET_SIZE
   \<and> LFUWrapper_WEIGHT entry_a 256 = 0
   \<and> LFUWrapper_WEIGHT entry_b 256 = 255
   \<and> LFUCache_lfu cache_ab world_256 = Some (Inr ''b'', world_256)
   \<and> PyLFUCache_SetItem cache_ab ''c'' (Obj 3) world_256
       = Some (Inr (),
               cache_ab\<lparr>dict := [(''a'', entry_a),
                                  (''c'', \<lparr>wrapped = Obj 3, last_visit = 256, visit_count = 255\<rparr>)]\<rparr>,
               world_256)"
  by (simp add: example_defs eval_defs LFUCache_init_def)

subsection \<open>Removing entries\<close>

text \<open>
  C2. The claim: \<open>pop\<close> of a key that is present removes the entry and returns the
  stored object. The code removes the entry, and the key is absent afterwards, but the
  call returns \<open>NULL\<close> with no exception set instead of the object: the test of the
  result of \<open>PyLFUCache_DelItem\<close> is inverted.
\<close>

theorem LFUCache_pop_present:
  assumes "PyLFUCache_GetItem self key = Some result"
  shows "LFUCache_pop self key dflt =
           (Inl NullWithoutException, self\<lparr>dict := AList.delete key (dict self)\<rparr>)
     \<and> PyLFUCache_GetItem (snd (LFUCache_pop self key dflt)) key = None"
  using assms
  by (simp add: LFUCache_pop_def PyLFUCache_GetItem_def PyDict_GetItem_def PyLFUCache_DelItem_def
      PyDict_DelItem_def AList.delete_conv)

theorem LFUCache_pop_present_witness:
  "PyLFUCache_GetItem cache_ab ''a'' = Some entry_a
   \<and> LFUCache_pop cache_ab ''a'' None =
       (Inl NullWithoutException, cache_ab\<lparr>dict := [(''b'', entry_b)]\<rparr>)
   \<and> PyLFUCache_GetItem (snd (LFUCache_pop cache_ab ''a'' None)) ''a'' = None"
  using LFUCache_pop_present [of cache_ab "''a''" entry_a None]
  by (simp add: example_defs eval_defs)

text \<open>
  C3. The claim: deleting a key that is absent signals the key-lookup failure and leaves
  the cache as it was. The code leaves the cache as it was, but the exception it sets is
  \<open>TypeError\<close>; the read \<open>cache[key]\<close> of the same absent key sets \<open>KeyError\<close>.
\<close>

theorem PyLFUCache_DelItem_absent:
  assumes "PyLFUCache_GetItem self key = None"
  shows "PyLFUCache_DelItem self key = (Inl TypeError, self)
    \<and> LFUCache_mp_ass_sub self key None w = Some (Inl TypeError, self, w)
    \<and> fst (LFUCache_mp_subscript self key w) = Inl KeyError"
  using assms
  by (simp add: PyLFUCache_DelItem_def LFUCache_mp_ass_sub_def LFUCache_mp_subscript_def)

theorem PyLFUCache_DelItem_absent_witness:
  "PyLFUCache_GetItem cache_ab ''z'' = None
   \<and> PyLFUCache_DelItem cache_ab ''z'' = (Inl TypeError, cache_ab)
   \<and> LFUCache_mp_ass_sub cache_ab ''z'' None world_256 = Some (Inl TypeError, cache_ab, world_256)
   \<and> fst (LFUCache_mp_subscript cache_ab ''z'' world_256) = Inl KeyError"
  using PyLFUCache_DelItem_absent [of cache_ab "''z''" world_256]
  by (simp add: example_defs eval_defs)

subsection \<open>The callback of setnx\<close>

text \<open>
  C4. The claim: when the callback of \<open>setnx\<close> fails on a miss, its exception reaches
  the caller and the cache is unchanged. The code does not test what the callback gave
  back: \<open>Py_INCREF\<close> is applied to the \<open>NULL\<close> result, which dereferences a null
  pointer. Whatever exception \<open>e\<close> the callback raised, the call does not hand it to the
  caller.
\<close>

theorem LFUCache_setnx_callback_fails:
  assumes "PyLFUCache_GetItem self key = None"
  shows "LFUCache_setnx self key (Callable (Inl e)) w = Some (Inl Crash, self, w)"
  using assms by (simp add: LFUCache_setnx_def)

theorem LFUCache_setnx_callback_fails_witness:
  "PyLFUCache_GetItem cache_ab ''z'' = None
   \<and> LFUCache_setnx cache_ab ''z'' (Callable (Inl (CallbackError ''RuntimeError''))) world_256
       = Some (Inl Crash, cache_ab, world_256)"
  using LFUCache_setnx_callback_fails [of cache_ab "''z''" "CallbackError ''RuntimeError''" world_256]
  by (simp add: example_defs eval_defs)

subsection \<open>Writes and reads that record no visit\<close>

text \<open>
  C9. Storing under a key that is present succeeds without reading the clock, replaces the
  stored object and leaves the entry's \<open>visit_count\<close> and \<open>last_visit\<close>, every other
  entry, the keys and their order, the size, the capacity and the counters as they were.
\<close>

theorem PyLFUCache_SetItem_present:
  assumes "PyLFUCache_GetItem self key = Some wrapper"
  shows "\<exists>self'. PyLFUCache_SetItem self key val w = Some (Inr (), self', w)
    \<and> PyLFUCache_GetItem self' key = Some (wrapper\<lparr>wrapped := val\<rparr>)
    \<and> visit_count (wrapper\<lparr>wrapped := val\<rparr>) = visit_count wrapper
    \<and> last_visit (wrapper\<lparr>wrapped := val\<rparr>) = last_visit wrapper
    \<and> (\<forall>k. k \<noteq> key \<longrightarrow> PyLFUCache_GetItem self' k = PyLFUCache_GetItem self k)
    \<and> PyDict_Keys (dict self') = PyDict_Keys (dict self)
    \<and> PyLFUCache_Size self' = PyLFUCache_Size self
    \<and> capacity self' = capacity self \<and> hits self' = hits self \<and> misses self' = misses self"
  using assms
  by (auto simp: PyLFUCache_SetItem_def PyLFUCache_GetItem_def PyDict_GetItem_def PyDict_Keys_def
      PyLFUCache_Size_def PyDict_Size_def map_fst_wrapper_store length_wrapper_store
      map_of_wrapper_store_same map_of_wrapper_store_other)

theorem PyLFUCache_SetItem_present_witness:
  "PyLFUCache_GetItem cache_ab ''a'' = Some entry_a
   \<and> PyLFUCache_SetItem cache_ab ''a'' (Obj 7) world_256 =
       Some (Inr (),
             cache_ab\<lparr>dict := [(''a'', \<lparr>wrapped = Obj 7, last_visit = 0, visit_count = 255\<rparr>),
                                (''b'', entry_b)]\<rparr>,
             world_256)"
  using PyLFUCache_SetItem_present [of cache_ab "''a''" entry_a "Obj 7" world_256]
  by (simp add: example_defs eval_defs)

text \<open>
  C10. \<open>get(key, default)\<close> of a key that is present returns the stored object and leaves
  the whole cache, and with it the entry's \<open>visit_count\<close> and \<open>last_visit\<close>, as it
  was; the indexed read \<open>cache[key]\<close> of the same key does change the entry.
\<close>

theorem LFUCache_get_present:
  assumes "PyLFUCache_GetItem self key = Some wrapper"
  shows "LFUCache_get self key dflt = (Inr (wrapped wrapper), self)
    \<and> PyLFUCache_GetItem (snd (LFUCache_get self key dflt)) key = Some wrapper
    \<and> PyLFUCache_GetItem (fst (snd (LFUCache_mp_subscript self key w))) key =
        Some (wrapper\<lparr>visit_count := visit_count wrapper + 1,
                      last_visit := fst (time_in_minutes w)\<rparr>)"
  using assms
  by (simp add: LFUCache_get_def LFUCache_mp_subscript_def LFUWrapper_wrapped_def
      LFUWrapper_UPDATE_WEIGHT_def Let_def split_beta PyLFUCache_GetItem_def PyDict_GetItem_def
      map_of_wrapper_store_same)

theorem LFUCache_get_present_witness:
  "PyLFUCache_GetItem cache_ab ''a'' = Some entry_a
   \<and> LFUCache_get cache_ab ''a'' (Some (Obj 9)) = (Inr (Obj 1), cache_ab)
   \<and> PyLFUCache_GetItem (fst (snd (LFUCache_mp_subscript cache_ab ''a'' world_256))) ''a'' =
        Some \<lparr>wrapped = Obj 1, last_visit = 256, visit_count = 256\<rparr>"
  using LFUCache_get_present [of cache_ab "''a''" entry_a "Some (Obj 9)" world_256]
  by (simp add: example_defs eval_defs LFUCache_get_def LFUCache_mp_subscript_def)

subsection \<open>The hit and miss counters\<close>

lemma evict_counters:
  "LFUCache_evict self w = Some (r, self', w') \<Longrightarrow> counters self' = counters self"
  by (auto simp: LFUCache_evict_def counters_def split: Option.bind_splits sum.splits if_splits)

lemma SetItem_counters:
  "PyLFUCache_SetItem self key val w = Some (r, self', w') \<Longrightarrow> counters self' = counters self"
  by (auto simp: PyLFUCache_SetItem_def counters_def Let_def split_beta
      split: option.splits Option.bind_splits sum.splits if_splits dest!: evict_counters)

lemma update_loop_counters:
  "update_loop kvs self w = Some (r, self', w') \<Longrightarrow> counters self' = counters self"
proof (induction kvs arbitrary: self w)
  case Nil
  then show ?case by simp
next
  case (Cons kv kvs)
  obtain key val where kv: "kv = (key, val)" by (cases kv)
  from Cons.prems show ?case
    unfolding kv
    by (auto split: Option.bind_splits sum.splits dest!: SetItem_counters Cons.IH)
qed

lemma evict_loop_counters:
  "evict_loop n self w = Some (r, self', w') \<Longrightarrow> counters self' = counters self"
proof (induction n arbitrary: self w)
  case 0
  then show ?case by simp
next
  case (Suc n)
  from Suc.prems show ?case
    by (auto split: Option.bind_splits sum.splits dest!: evict_counters Suc.IH)
qed

lemma setdefault_counters:
  "LFUCache_setdefault self key dflt w = Some (r, self', w') \<Longrightarrow> counters self' = counters self"
  by (auto simp: LFUCache_setdefault_def Let_def split_beta counters_def
      split: option.splits Option.bind_splits sum.splits dest!: SetItem_counters)

lemma setnx_counters:
  "LFUCache_setnx self key cb w = Some (r, self', w') \<Longrightarrow> counters self' = counters self"
  by (auto simp: LFUCache_setnx_def Let_def split_beta counters_def
      split: option.splits Option.bind_splits sum.splits callback.splits dest!: SetItem_counters)

lemma update_counters:
  "LFUCache_update self arg kwargs w = Some (r, self', w') \<Longrightarrow> counters self' = counters self"
  by (auto simp: LFUCache_update_def split: Option.bind_splits sum.splits
      dest!: update_loop_counters)

lemma set_capacity_counters:
  "LFUCache_set_capacity self cap w = Some (r, self', w') \<Longrightarrow> counters self' = counters self"
  by (auto simp: LFUCache_set_capacity_def counters_def
      split: Option.bind_splits sum.splits if_splits dest!: evict_loop_counters)

lemma pop_counters: "counters (snd (LFUCache_pop self key dflt)) = counters self"
  by (auto simp: LFUCache_pop_def PyLFUCache_DelItem_def counters_def
      split: option.splits sum.splits prod.splits)

lemma DelItem_counters: "counters (snd (PyLFUCache_DelItem self key)) = counters self"
  by (auto simp: PyLFUCache_DelItem_def counters_def split: option.splits sum.splits)

lemma get_counters: "counters (snd (LFUCache_get self key dflt)) = counters self"
  by (auto simp: LFUCache_get_def split: option.splits)


text \<open>
  C5, as stated, says that the indexed read is the only operation that changes the
  counters. \<open>clear\<close> changes them too: after one hit the counters are \<open>(1, 0)\<close>, and
  \<open>clear\<close> sets them back to \<open>(0, 0)\<close>.
\<close>

theorem LFUCache_clear_resets_counters:
  "counters (fst (snd (LFUCache_mp_subscript cache_ab ''a'' world_256))) = (1, 0)
   \<and> counters (snd (LFUCache_clear (fst (snd (LFUCache_mp_subscript cache_ab ''a'' world_256)))))
       = (0, 0)
   \<and> counters (snd (LFUCache_clear (fst (snd (LFUCache_mp_subscript cache_ab ''a'' world_256)))))
       \<noteq> counters (fst (snd (LFUCache_mp_subscript cache_ab ''a'' world_256)))"
  by (simp add: counters_def LFUCache_clear_def PyLFUCache_Clear_def example_defs eval_defs
      LFUCache_mp_subscript_def)

text \<open>
  C5, amended. The indexed read \<open>cache[key]\<close> of a key that is present adds one to
  \<open>hits\<close>, adds one to the entry's \<open>visit_count\<close>, sets its \<open>last_visit\<close> to the
  minute of the clock and returns the stored object; of a key that is absent it adds one
  to \<open>misses\<close> and sets \<open>KeyError\<close>. \<open>clear\<close> sets both counters to 0. Every other
  operation leaves both counters as they were: the views \<open>keys\<close>, \<open>values\<close>,
  \<open>items\<close>, iteration, the containment test, \<open>pop\<close>, \<open>get\<close> with a default,
  \<open>hints\<close>, deletion, and, whenever they return, \<open>setdefault\<close>, \<open>setnx\<close>, storing,
  \<open>update\<close>, \<open>set_capacity\<close> and \<open>evict\<close>. (\<open>LFUCache_lfu\<close> changes no field of
  the cache at all.)
\<close>

theorem counters_bookkeeping:
  "(\<forall>wrapper. PyLFUCache_GetItem self key = Some wrapper \<longrightarrow>
      LFUCache_mp_subscript self key w =
        (Inr (wrapped wrapper),
         self\<lparr>hits := hits self + 1,
              dict := wrapper_store (dict self) key
                (wrapper\<lparr>visit_count := visit_count wrapper + 1,
                         last_visit := fst (time_in_minutes w)\<rparr>)\<rparr>,
         snd (time_in_minutes w)))
   \<and> (PyLFUCache_GetItem self key = None \<longrightarrow>
        LFUCache_mp_subscript self key w = (Inl KeyError, self\<lparr>misses := misses self + 1\<rparr>, w))
   \<and> counters (snd (LFUCache_clear self)) = (0, 0)
   \<and> counters (snd (LFUCache_keys self)) = counters self
   \<and> counters (fst (snd (LFUCache_values self w))) = counters self
   \<and> counters (fst (snd (LFUCache_items self w))) = counters self
   \<and> counters (snd (LFUCache_tp_iter self)) = counters self
   \<and> counters (snd (LFUCache_Contains self key)) = counters self
   \<and> counters (snd (LFUCache_pop self key dflt)) = counters self
   \<and> counters (snd (LFUCache_get self key dflt)) = counters self
   \<and> counters (snd (LFUCache_hints self)) = counters self
   \<and> counters (snd (PyLFUCache_DelItem self key)) = counters self
   \<and> (\<forall>r self' w'. LFUCache_setdefault self key dflt w = Some (r, self', w')
         \<longrightarrow> counters self' = counters self)
   \<and> (\<forall>r self' w'. LFUCache_setnx self key cb w = Some (r, self', w')
         \<longrightarrow> counters self' = counters self)
   \<and> (\<forall>r self' w'. PyLFUCache_SetItem self key val w = Some (r, self', w')
         \<longrightarrow> counters self' = counters self)
   \<and> (\<forall>r self' w'. LFUCache_update self arg kwargs w = Some (r, self', w')
         \<longrightarrow> counters self' = counters self)
   \<and> (\<forall>r self' w'. LFUCache_set_capacity self cap w = Some (r, self', w')
         \<longrightarrow> counters self' = counters self)
   \<and> (\<forall>r self' w'. LFUCache_evict self w = Some (r, self', w')
         \<longrightarrow> counters self' = counters self)"
proof -
  have hit: "\<forall>wrapper. PyLFUCache_GetItem self key = Some wrapper \<longrightarrow>
      LFUCache_mp_subscript self key w =
        (Inr (wrapped wrapper),
         self\<lparr>hits := hits self + 1,
              dict := wrapper_store (dict self) key
                (wrapper\<lparr>visit_count := visit_count wrapper + 1,
                         last_visit := fst (time_in_minutes w)\<rparr>)\<rparr>,
         snd (time_in_minutes w))"
    by (simp add: LFUCache_mp_subscript_def LFUWrapper_wrapped_def LFUWrapper_UPDATE_WEIGHT_def
        Let_def split_beta)
  have miss: "PyLFUCache_GetItem self key = None \<longrightarrow>
        LFUCache_mp_subscript self key w = (Inl KeyError, self\<lparr>misses := misses self + 1\<rparr>, w)"
    by (simp add: LFUCache_mp_subscript_def)
  have views: "counters (snd (LFUCache_clear self)) = (0, 0)"
      "counters (snd (LFUCache_keys self)) = counters self"
      "counters (fst (snd (LFUCache_values self w))) = counters self"
      "counters (fst (snd (LFUCache_items self w))) = counters self"
      "counters (snd (LFUCache_tp_iter self)) = counters self"
      "counters (snd (LFUCache_Contains self key)) = counters self"
      "counters (snd (LFUCache_hints self)) = counters self"
    by (simp_all add: counters_def LFUCache_clear_def PyLFUCache_Clear_def LFUCache_keys_def
        LFUCache_values_def LFUCache_items_def LFUCache_tp_iter_def LFUCache_Contains_def
        LFUCache_hints_def split_beta)
  show ?thesis
    using hit miss views pop_counters [of self key dflt] get_counters [of self key dflt]
      DelItem_counters [of self key]
      setdefault_counters [of self key dflt w] setnx_counters [of self key cb w]
      SetItem_counters [of self key val w] update_counters [of self arg kwargs w]
      set_capacity_counters [of self cap w] evict_counters [of self w]
    by blast
qed


theorem counters_bookkeeping_witness:
  "PyLFUCache_GetItem cache_ab ''a'' = Some entry_a
   \<and> LFUCache_mp_subscript cache_ab ''a'' world_256 =
       (Inr (Obj 1),
        cache_ab\<lparr>hits := 1,
                 dict := [(''a'', \<lparr>wrapped = Obj 1, last_visit = 256, visit_count = 256\<rparr>),
                          (''b'', entry_b)]\<rparr>,
        world_256)
   \<and> PyLFUCache_GetItem cache_ab ''z'' = None
   \<and> LFUCache_mp_subscript cache_ab ''z'' world_256 =
       (Inl KeyError, cache_ab\<lparr>misses := 1\<rparr>, world_256)
   \<and> counters cache_ab = (0, 0)
   \<and> map_option (\<lambda>(r, s, w). counters s) (LFUCache_setdefault cache_ab ''z'' None world_256)
       = Some (0, 0)
   \<and> map_option (\<lambda>(r, s, w). counters s)
        (LFUCache_setnx cache_ab ''z'' (Callable (Inr (Obj 5))) world_256) = Some (0, 0)
   \<and> map_option (\<lambda>(r, s, w). counters s) (PyLFUCache_SetItem cache_ab ''z'' (Obj 5) world_256)
       = Some (0, 0)
   \<and> map_option (\<lambda>(r, s, w). counters s)
        (LFUCache_update cache_ab [(''a'', Obj 4)] [] world_256) = Some (0, 0)
   \<and> map_option (\<lambda>(r, s, w). counters s) (LFUCache_set_capacity cache_ab 1 world_256)
       = Some (0, 0)
   \<and> map_option (\<lambda>(r, s, w). counters s) (LFUCache_evict cache_ab world_256) = Some (0, 0)"
  using counters_bookkeeping [where self = cache_ab and key = "''a''" and w = world_256]
    counters_bookkeeping [where self = cache_ab and key = "''z''" and w = world_256
      and dflt = None and cb = "Callable (Inr (Obj 5))" and val = "Obj 5"
      and arg = "[(''a'', Obj 4)]" and kwargs = "[]" and cap = 1]
  by (simp add: example_defs eval_defs counters_def LFUCache_mp_subscript_def
      LFUCache_setdefault_def LFUCache_setnx_def LFUCache_update_def LFUCache_set_capacity_def)

subsection \<open>Shrinking the capacity\<close>

lemma lfu_scan_rv:
  "snd (lfu_scan now d mn rv) = rv \<or> snd (lfu_scan now d mn rv) \<in> Some ` fst ` set d"
proof (induction d arbitrary: mn rv)
  case Nil
  then show ?case by simp
next
  case (Cons p d)
  obtain key wr where p: "p = (key, wr)" by (cases p)
  show ?case
    unfolding p using Cons.IH [of mn rv] Cons.IH [of "LFUWrapper_WEIGHT wr now" "Some key"]
    by (auto simp: Let_def)
qed

lemma lfu_scan_finds:
  assumes "d \<noteq> []"
  shows "\<exists>key. snd (lfu_scan now d 0 rv) = Some key \<and> key \<in> fst ` set d"
proof -
  obtain key wr rest where d: "d = (key, wr) # rest" using assms by (cases d) auto
  have "snd (lfu_scan now d 0 rv) = snd (lfu_scan now rest (LFUWrapper_WEIGHT wr now) (Some key))"
    by (simp add: d)
  with lfu_scan_rv [of now rest "LFUWrapper_WEIGHT wr now" "Some key"] show ?thesis
    by (auto simp: d)
qed

lemma LFUCache_lfu_exact:
  assumes "dict self \<noteq> []" and "PyLFUCache_Size self < LFU_BUCKET_SIZE"
  shows "\<exists>key. LFUCache_lfu self w = Some (Inr key, snd (time_in_minutes w))
           \<and> key \<in> fst ` set (dict self)"
proof -
  obtain key where k: "snd (lfu_scan (fst (time_in_minutes w)) (dict self) 0 None) = Some key"
      "key \<in> fst ` set (dict self)"
    using lfu_scan_finds [OF assms(1)] by blast
  have "PyLFUCache_Size self \<noteq> 0" using assms(1) by (simp add: PyLFUCache_Size_def PyDict_Size_def)
  then show ?thesis using assms(2) k
    by (simp add: LFUCache_lfu_def split_beta Let_def lfu_return_def)
qed

lemma LFUCache_evict_exact:
  assumes "dict self \<noteq> []" and "PyLFUCache_Size self < LFU_BUCKET_SIZE"
    and "distinct (map fst (dict self))"
  shows "\<exists>key. LFUCache_lfu self w = Some (Inr key, snd (time_in_minutes w))
      \<and> key \<in> fst ` set (dict self)
      \<and> LFUCache_evict self w =
          Some (Inr Py_None, self\<lparr>dict := AList.delete key (dict self)\<rparr>, snd (time_in_minutes w))
      \<and> PyLFUCache_Size (self\<lparr>dict := AList.delete key (dict self)\<rparr>) = PyLFUCache_Size self - 1"
proof -
  obtain key where k: "LFUCache_lfu self w = Some (Inr key, snd (time_in_minutes w))"
      "key \<in> fst ` set (dict self)"
    using LFUCache_lfu_exact [OF assms(1,2)] by blast
  obtain x where x: "map_of (dict self) key = Some x" using map_of_present [OF k(2)] by blast
  have "Suc (length (AList.delete key (dict self))) = length (dict self)"
    using length_delete_present [OF assms(3) x] .
  then have "PyLFUCache_Size (self\<lparr>dict := AList.delete key (dict self)\<rparr>) = PyLFUCache_Size self - 1"
    by (simp add: PyLFUCache_Size_def PyDict_Size_def)
  with k x show ?thesis
    by (simp add: LFUCache_evict_def PyDict_DelItem_def)
qed

lemma evict_loop_exact:
  assumes "int n \<le> PyLFUCache_Size self" and "PyLFUCache_Size self < LFU_BUCKET_SIZE"
    and "distinct (map fst (dict self))"
  shows "\<exists>self' w'. evict_loop n self w = Some (Inr Py_None, self', w')
      \<and> PyLFUCache_Size self' = PyLFUCache_Size self - int n
      \<and> set (PyDict_Keys (dict self')) \<subseteq> set (PyDict_Keys (dict self))
      \<and> distinct (map fst (dict self'))
      \<and> capacity self' = capacity self \<and> hits self' = hits self \<and> misses self' = misses self"
  using assms
proof (induction n arbitrary: self w)
  case 0
  then show ?case by simp
next
  case (Suc n)
  from Suc.prems(1) have ne: "dict self \<noteq> []" by (auto simp: PyLFUCache_Size_def PyDict_Size_def)
  obtain key where k: "key \<in> fst ` set (dict self)"
     "LFUCache_evict self w =
          Some (Inr Py_None, self\<lparr>dict := AList.delete key (dict self)\<rparr>, snd (time_in_minutes w))"
     "PyLFUCache_Size (self\<lparr>dict := AList.delete key (dict self)\<rparr>) = PyLFUCache_Size self - 1"
    using LFUCache_evict_exact [OF ne Suc.prems(2,3)] by blast
  let ?s = "self\<lparr>dict := AList.delete key (dict self)\<rparr>"
  have d: "distinct (map fst (dict ?s))" using Suc.prems(3) by (simp add: AList.distinct_delete)
  have "int n \<le> PyLFUCache_Size ?s" "PyLFUCache_Size ?s < LFU_BUCKET_SIZE"
    using k(3) Suc.prems(1,2) by simp_all
  from Suc.IH [OF this d, of "snd (time_in_minutes w)"] obtain self' w' where
    r: "evict_loop n ?s (snd (time_in_minutes w)) = Some (Inr Py_None, self', w')"
      "PyLFUCache_Size self' = PyLFUCache_Size ?s - int n"
      "set (PyDict_Keys (dict self')) \<subseteq> set (PyDict_Keys (dict ?s))"
      "distinct (map fst (dict self'))"
      "capacity self' = capacity ?s" "hits self' = hits ?s" "misses self' = misses ?s"
    by blast
  have sub: "set (PyDict_Keys (dict ?s)) \<subseteq> set (PyDict_Keys (dict self))"
    by (auto simp: PyDict_Keys_def AList.delete_eq)
  show ?case
    using k(2,3) r sub by simp
qed

lemma sint_small:
  "- (2 ^ 31) \<le> x \<Longrightarrow> x < 2 ^ 31 \<Longrightarrow> sint (word_of_int x :: 32 word) = x"
  by (simp add: sint_sbintrunc' signed_take_bit_int_eq_self)


text \<open>
  The number of evictions. Let the cache satisfy its invariant and hold fewer than 256
  entries, and let \<open>cap\<close> be positive and smaller than the number of entries. Then
  \<open>set_capacity\<close> returns after size minus \<open>cap\<close> calls of \<open>LFUCache_evict\<close>, the
  capacity is \<open>cap\<close> and so is the number of entries, and no key has appeared.
\<close>

lemma LFUCache_set_capacity_count:
  assumes "cache_inv self" and "0 < cap" and "cap < PyLFUCache_Size self"
    and "PyLFUCache_Size self < LFU_BUCKET_SIZE"
  shows "\<exists>self' w'.
      evict_loop (nat (PyLFUCache_Size self - cap)) self w = Some (Inr Py_None, self', w')
      \<and> LFUCache_set_capacity self cap w = Some (Inr Py_None, self'\<lparr>capacity := cap\<rparr>, w')
      \<and> PyLFUCache_Size (self'\<lparr>capacity := cap\<rparr>) = cap
      \<and> PyLFUCache_Size self - PyLFUCache_Size (self'\<lparr>capacity := cap\<rparr>) = PyLFUCache_Size self - cap
      \<and> capacity (self'\<lparr>capacity := cap\<rparr>) = cap
      \<and> set (PyDict_Keys (dict self')) \<subseteq> set (PyDict_Keys (dict self))
      \<and> cache_inv (self'\<lparr>capacity := cap\<rparr>)"
proof -
  let ?n = "nat (PyLFUCache_Size self - cap)"
  have inv: "distinct (map fst (dict self))" "PyLFUCache_Size self \<le> capacity self"
    using assms(1) by (simp_all add: cache_inv_def PyDict_Keys_def)
  have n: "int ?n \<le> PyLFUCache_Size self" "int ?n = PyLFUCache_Size self - cap"
    using assms(2,3) by simp_all
  obtain self' w' where
    r: "evict_loop ?n self w = Some (Inr Py_None, self', w')"
      "PyLFUCache_Size self' = PyLFUCache_Size self - int ?n"
      "set (PyDict_Keys (dict self')) \<subseteq> set (PyDict_Keys (dict self))"
      "distinct (map fst (dict self'))"
    using evict_loop_exact [OF n(1) assms(4) inv(1), of w] by blast
  have small: "sint (word_of_int (PyLFUCache_Size self - cap) :: 32 word) = PyLFUCache_Size self - cap"
    using assms(2,3,4) by (intro sint_small) (simp_all add: LFU_BUCKET_SIZE_def)
  have range: "\<not> (cap < - (2 ^ 63) \<or> 2 ^ 63 \<le> cap)"
    using assms(2,3,4) by (simp add: LFU_BUCKET_SIZE_def)
  have lt: "cap < capacity self" using assms(3) inv(2) by simp
  have call: "LFUCache_set_capacity self cap w = Some (Inr Py_None, self'\<lparr>capacity := cap\<rparr>, w')"
    using range lt assms(2,3) r(1) small
    by (simp add: LFUCache_set_capacity_def)
  have size: "PyLFUCache_Size (self'\<lparr>capacity := cap\<rparr>) = cap"
    using r(2) n(2) by (simp add: PyLFUCache_Size_def)
  have "cache_inv (self'\<lparr>capacity := cap\<rparr>)"
    using size r(4) assms(2) by (simp add: cache_inv_def PyDict_Keys_def)
  with r(1,3) call size show ?thesis by simp
qed

text \<open>
  Which entries go. While no entry has weight 0 the scan of the code finds the victim of
  the spec.
\<close>

lemma lfu_scan_agrees_aux:
  assumes "\<forall>(key, wrapper) \<in> set d. LFUWrapper_WEIGHT wrapper now \<noteq> 0" and "m \<noteq> 0"
  shows "snd (lfu_scan now d m (Some k)) = map_option fst (spec_victim_scan now d (Some (k, m)))"
  using assms
proof (induction d arbitrary: m k)
  case Nil
  then show ?case by simp
next
  case (Cons p d)
  obtain key wr where p: "p = (key, wr)" by (cases p)
  from Cons.prems have nz: "LFUWrapper_WEIGHT wr now \<noteq> 0"
    and rest: "\<forall>(key, wrapper) \<in> set d. LFUWrapper_WEIGHT wrapper now \<noteq> 0"
    by (auto simp: p)
  show ?case
    unfolding p
    using Cons.IH [OF rest nz, of key] Cons.IH [OF rest Cons.prems(2), of k] Cons.prems(2)
    by (simp add: Let_def)
qed

lemma lfu_scan_agrees:
  assumes "\<forall>(key, wrapper) \<in> set d. LFUWrapper_WEIGHT wrapper now \<noteq> 0"
  shows "snd (lfu_scan now d 0 None) = spec_victim now d"
proof (cases d)
  case Nil
  then show ?thesis by (simp add: spec_victim_def)
next
  case (Cons p rest)
  obtain key wr where p: "p = (key, wr)" by (cases p)
  from assms have nz: "LFUWrapper_WEIGHT wr now \<noteq> 0"
    and r: "\<forall>(key, wrapper) \<in> set rest. LFUWrapper_WEIGHT wrapper now \<noteq> 0"
    by (auto simp: Cons p)
  show ?thesis
    unfolding Cons p using lfu_scan_agrees_aux [OF r nz, of key]
    by (simp add: spec_victim_def Let_def)
qed

text \<open>
  C7. The claim: when the size exceeds a positive new capacity, \<open>set_capacity\<close> evicts
  size minus capacity entries, one at a time, each the victim of the victim-selection
  algorithm, and leaves as many entries as the new capacity. The code evicts that many
  entries and leaves that size, but the entries it evicts are not the victims of the
  algorithm once an entry has weight 0, by the sentinel defect of C1. The cache
  \<open>cache_ab\<close> satisfies the invariant and holds 2 entries; in minute 256 the weight of
  \<open>a\<close> is 0 and the weight of \<open>b\<close> is 255, so the victim of the algorithm is \<open>a\<close>.
  \<open>set_capacity(1)\<close> returns \<open>None\<close> with one entry left and capacity 1, and the
  entry it has removed is \<open>b\<close>: \<open>a\<close> is still stored and \<open>b\<close> is absent.
\<close>

theorem LFUCache_set_capacity_evicts_fresh_entry:
  "cache_inv cache_ab
   \<and> 1 < PyLFUCache_Size cache_ab
   \<and> PyLFUCache_Size cache_ab < LFU_BUCKET_SIZE
   \<and> LFUWrapper_WEIGHT entry_a 256 = 0
   \<and> LFUWrapper_WEIGHT entry_b 256 = 255
   \<and> spec_victim 256 (dict cache_ab) = Some ''a''
   \<and> LFUCache_lfu cache_ab world_256 = Some (Inr ''b'', world_256)
   \<and> LFUCache_set_capacity cache_ab 1 world_256 =
       Some (Inr Py_None, cache_ab\<lparr>dict := [(''a'', entry_a)], capacity := 1\<rparr>, world_256)
   \<and> PyLFUCache_GetItem (cache_ab\<lparr>dict := [(''a'', entry_a)], capacity := 1\<rparr>) ''a''
       = Some entry_a
   \<and> PyLFUCache_GetItem (cache_ab\<lparr>dict := [(''a'', entry_a)], capacity := 1\<rparr>) ''b''
       = None"
  by (simp add: example_defs eval_defs cache_inv_def LFUCache_set_capacity_def spec_victim_def)

subsection \<open>The capacity invariant\<close>

text \<open>
  Whatever \<open>LFUCache_lfu\<close> returns, in the exact scan or from the samples, is a key
  of the dict, so an eviction that succeeds on a dict that is not empty removes exactly
  one entry. With this every operation that returns successfully keeps \<open>cache_inv\<close>;
  for \<open>set_capacity\<close> this needs the number of evictions to fit the \<open>int\<close> that
  counts them.
\<close>

text \<open>
  \<open>rand_limit\<close> "returns a random number between 0 and limit inclusive", whenever it
  returns a number at all.
\<close>

lemma rand_limit_loop_accept:
  "int (shd s) sdiv divisor \<le> limit
    \<Longrightarrow> rand_limit_loop divisor limit s = Some (int (shd s) sdiv divisor, stl s)"
  by (subst rand_limit_loop.simps) simp

lemma sdiv_nonneg: "0 \<le> a \<Longrightarrow> 0 < b \<Longrightarrow> a sdiv b = a div (b::int)"
  by (simp add: signed_divide_int_def sgn_if)

lemma rand_limit_loop_range_aux:
  assumes "rand_limit_loop divisor limit s = Some y"
  shows "0 < divisor \<longrightarrow> 0 \<le> fst y \<and> fst y \<le> limit"
proof (rule rand_limit_loop.raw_induct
    [where P = "\<lambda>d l t z. 0 < d \<longrightarrow> 0 \<le> fst z \<and> fst z \<le> l", OF _ assms])
  fix loop :: "int \<Rightarrow> int \<Rightarrow> nat stream \<Rightarrow> (int \<times> nat stream) option"
  fix d l t z
  assume IH: "\<And>d l t z. loop d l t = Some z \<Longrightarrow> 0 < d \<longrightarrow> 0 \<le> fst z \<and> fst z \<le> l"
  assume step: "(if l < int (shd t) sdiv d then loop d l (stl t)
      else Some (int (shd t) sdiv d, stl t)) = Some z"
  show "0 < d \<longrightarrow> 0 \<le> fst z \<and> fst z \<le> l"
  proof (cases "l < int (shd t) sdiv d")
    case True
    with step have "loop d l (stl t) = Some z" by simp
    then show ?thesis by (rule IH)
  next
    case False
    with step have z: "fst z = int (shd t) sdiv d" by auto
    show ?thesis
    proof
      assume d: "0 < d"
      then have "0 \<le> int (shd t) div d" by (simp add: pos_imp_zdiv_nonneg_iff)
      with False z d show "0 \<le> fst z \<and> fst z \<le> l" by (simp add: sdiv_nonneg)
    qed
  qed
qed

lemma rand_limit_loop_range:
  assumes "rand_limit_loop divisor limit s = Some (rv, s')" and "0 < divisor"
  shows "0 \<le> rv \<and> rv \<le> limit"
  using rand_limit_loop_range_aux [OF assms(1)] assms(2) by simp

lemma rand_limit_range:
  assumes "rand_limit limit w = Some (Inr rv, w')" and "0 \<le> limit"
  shows "0 \<le> rv \<and> rv \<le> limit"
proof -
  let ?d = "int (RAND_MAX w) sdiv (limit + 1)"
  have d: "?d = int (RAND_MAX w) div (limit + 1)" using assms(2) by (simp add: sdiv_nonneg)
  have "0 \<le> ?d" unfolding d using assms(2) by (simp add: pos_imp_zdiv_nonneg_iff)
  moreover from assms have "?d \<noteq> 0" by (auto simp: rand_limit_def Let_def split: if_splits)
  ultimately have pos: "0 < ?d" by simp
  from assms obtain s' where "rand_limit_loop ?d limit (rng w) = Some (rv, s')"
    by (auto simp: rand_limit_def Let_def split: if_splits)
  from rand_limit_loop_range [OF this pos] show ?thesis .
qed

lemma lfu_buckets_keys:
  assumes "lfu_buckets d keylist b_size now i n mn rv key w = Some (Inr (mn', rv', key'), w')"
  shows "(rv' = rv \<or> rv' \<in> Some ` set keylist) \<and> (key' = key \<or> key' \<in> Some ` set keylist)"
  using assms
proof (induction n arbitrary: i mn rv key w)
  case 0
  then show ?case by simp
next
  case (Suc n)
  from Suc.prems obtain off w1 where
    r: "rand_limit (sint (word_of_int b_size :: 32 word)) w = Some (Inr off, w1)"
    by (auto split: Option.bind_splits sum.splits)
  let ?pos = "i * b_size + off"
  from Suc.prems r have range: "0 \<le> ?pos" "?pos < int (length keylist)"
    by (auto simp: Let_def split: if_splits)
  then have mem: "keylist ! nat ?pos \<in> set keylist" by simp
  from Suc.prems r range obtain wrapper where
    wr: "PyDict_GetItem d (keylist ! nat ?pos) = Some wrapper"
    by (auto simp: Let_def split: option.splits)
  show ?case
  proof (cases "mn = 0 \<or> LFUWrapper_WEIGHT wrapper now < mn")
    case True
    with Suc.prems r range wr have
      "lfu_buckets d keylist b_size now (i + 1) n (LFUWrapper_WEIGHT wrapper now)
         (Some (keylist ! nat ?pos)) (Some (keylist ! nat ?pos)) w1 = Some (Inr (mn', rv', key'), w')"
      by (auto simp: Let_def)
    from Suc.IH [OF this] mem show ?thesis by auto
  next
    case False
    with Suc.prems r range wr have
      "lfu_buckets d keylist b_size now (i + 1) n mn rv (Some (keylist ! nat ?pos)) w1
         = Some (Inr (mn', rv', key'), w')"
      by (auto simp: Let_def)
    from Suc.IH [OF this] mem show ?thesis by auto
  qed
qed

lemma lfu_return_Inr: "lfu_return rv w = Some (Inr key, w') \<Longrightarrow> rv = Some key"
  by (auto simp: lfu_return_def split: option.splits)

lemma LFUCache_lfu_key:
  assumes "LFUCache_lfu self w = Some (Inr key, w')"
  shows "key \<in> set (PyDict_Keys (dict self))"
proof (cases "PyLFUCache_Size self < LFU_BUCKET_SIZE")
  case True
  with assms have ne: "dict self \<noteq> []"
    by (auto simp: LFUCache_lfu_def split_beta Let_def PyLFUCache_Size_def PyDict_Size_def
        split: if_splits)
  from LFUCache_lfu_exact [OF ne True, of w] assms show ?thesis
    by (auto simp: PyDict_Keys_def)
next
  case False
  let ?now = "fst (time_in_minutes w)"
  let ?keys = "PyDict_Keys (dict self)"
  from False have nz: "PyLFUCache_Size self \<noteq> 0" by (simp add: LFU_BUCKET_SIZE_def)
  from assms False nz obtain mn rv k w2 where
    b: "lfu_buckets (dict self) ?keys (PyLFUCache_Size self div LFU_BUCKET) ?now 0
          (nat (LFU_BUCKET - 1)) 0 None None (snd (time_in_minutes w)) = Some (Inr (mn, rv, k), w2)"
    and fin: "lfu_return rv w2 = Some (Inr key, w') \<or> lfu_return k w2 = Some (Inr key, w')"
    by (auto simp: LFUCache_lfu_def split_beta Let_def
        split: Option.bind_splits sum.splits if_splits option.splits)
  from lfu_buckets_keys [OF b] fin show ?thesis
    by (auto dest!: lfu_return_Inr)
qed

lemma rand_limit_Inl: "rand_limit limit w = Some (Inl e, w') \<Longrightarrow> e = Crash"
  by (auto simp: rand_limit_def Let_def split: if_splits)

lemma lfu_return_Inl: "lfu_return rv w = Some (Inl e, w') \<Longrightarrow> e = Crash"
  by (auto simp: lfu_return_def split: option.splits)

lemma lfu_buckets_Inl:
  "lfu_buckets d keylist b_size now i n mn rv key w = Some (Inl e, w') \<Longrightarrow> e = Crash"
proof (induction n arbitrary: i mn rv key w)
  case 0
  then show ?case by simp
next
  case (Suc n)
  from Suc.prems show ?case
    by (auto simp: Let_def split: Option.bind_splits sum.splits if_splits option.splits
        dest: rand_limit_Inl Suc.IH)
qed

lemma LFUCache_lfu_Inl:
  assumes "LFUCache_lfu self w = Some (Inl e, w')"
  shows "e = Crash \<or> dict self = []"
  using assms
  by (auto simp: LFUCache_lfu_def split_beta Let_def PyLFUCache_Size_def PyDict_Size_def
      split: if_splits Option.bind_splits sum.splits option.splits
      dest: lfu_return_Inl lfu_buckets_Inl)

lemma LFUCache_evict_inv:
  assumes "LFUCache_evict self w = Some (Inr r, self', w')" and "distinct (PyDict_Keys (dict self))"
  shows "distinct (PyDict_Keys (dict self'))
    \<and> capacity self' = capacity self
    \<and> (if dict self = [] then self' = self else PyLFUCache_Size self' = PyLFUCache_Size self - 1)"
proof -
  from assms(1) obtain k w1 where l: "LFUCache_lfu self w = Some (k, w1)"
    by (auto simp: LFUCache_evict_def split: Option.bind_splits)
  show ?thesis
  proof (cases k)
    case (Inl e)
    with l assms(1) have "e \<noteq> Crash" "self' = self"
      by (auto simp: LFUCache_evict_def split: if_splits)
    with LFUCache_lfu_Inl [of self w e w1] l Inl assms(2) show ?thesis by auto
  next
    case (Inr key)
    with l have mem: "key \<in> set (PyDict_Keys (dict self))" by (auto dest: LFUCache_lfu_key)
    then obtain x where x: "map_of (dict self) key = Some x"
      using map_of_present [of key "dict self"] by (auto simp: PyDict_Keys_def)
    from assms(1) l Inr x have s': "self' = self\<lparr>dict := AList.delete key (dict self)\<rparr>"
      by (auto simp: LFUCache_evict_def PyDict_DelItem_def)
    have "Suc (length (AList.delete key (dict self))) = length (dict self)"
      using length_delete_present [OF _ x] assms(2) by (simp add: PyDict_Keys_def)
    then have "PyLFUCache_Size self' = PyLFUCache_Size self - 1"
      unfolding s' by (simp add: PyLFUCache_Size_def PyDict_Size_def)
    moreover have "dict self \<noteq> []" using mem by (auto simp: PyDict_Keys_def)
    moreover have "distinct (PyDict_Keys (dict self'))"
      unfolding s' using assms(2) by (simp add: PyDict_Keys_def AList.distinct_delete)
    ultimately show ?thesis unfolding s' by simp
  qed
qed

lemma length_update_le: "length (AList.update k v d) \<le> Suc (length d)"
  by (induction d) auto

lemma length_update_fresh: "k \<notin> fst ` set d \<Longrightarrow> length (AList.update k v d) = Suc (length d)"
  by (induction d) auto

lemma PyLFUCache_SetItem_inv:
  assumes "PyLFUCache_SetItem self key val w = Some (Inr u, self', w')" and "cache_inv self"
  shows "cache_inv self'"
proof (cases "PyDict_GetItem (dict self) key")
  case (Some wrapper)
  with assms show ?thesis
    by (auto simp: PyLFUCache_SetItem_def cache_inv_def PyDict_Keys_def PyLFUCache_Size_def
        PyDict_Size_def map_fst_wrapper_store length_wrapper_store)
next
  case None
  have fresh: "key \<notin> fst ` set (dict self)"
    using None by (simp add: PyDict_GetItem_def map_of_eq_None_iff)
  have len: "\<And>d wr. key \<notin> fst ` set d \<Longrightarrow> length (AList.update key wr d) = Suc (length d)"
    by (rule length_update_fresh)
  have dist: "\<And>d wr. distinct (map fst d) \<Longrightarrow> distinct (map fst (AList.update key wr d))"
    by (rule AList.distinct_update)
  from assms(2) have inv: "distinct (PyDict_Keys (dict self))" "0 < capacity self"
      "PyLFUCache_Size self \<le> capacity self"
    by (simp_all add: cache_inv_def)
  show ?thesis
  proof (cases "PyLFUCache_Size self + 1 > capacity self")
    case False
    with assms(1) None fresh inv show ?thesis
      by (auto simp: PyLFUCache_SetItem_def cache_inv_def PyDict_Keys_def PyLFUCache_Size_def
          PyDict_Size_def PyDict_SetItem_def LFUWrapper_init_def split_beta len dist)
  next
    case True
    with assms(1) None obtain r self1 w1 where
      ev: "LFUCache_evict self w = Some (Inr r, self1, w1)"
      and s': "self' = self1\<lparr>dict := PyDict_SetItem (dict self1) key (fst (LFUWrapper_init val w1))\<rparr>"
      by (auto simp: PyLFUCache_SetItem_def split_beta split: Option.bind_splits sum.splits)
    from LFUCache_evict_inv [OF ev inv(1)] have
      e: "distinct (PyDict_Keys (dict self1))" "capacity self1 = capacity self"
        "if dict self = [] then self1 = self else PyLFUCache_Size self1 = PyLFUCache_Size self - 1"
      by simp_all
    have sz: "PyLFUCache_Size self1 + 1 \<le> capacity self"
      using e(3) inv(2,3) by (auto simp: PyLFUCache_Size_def PyDict_Size_def split: if_splits)
    have "length (PyDict_SetItem (dict self1) key (fst (LFUWrapper_init val w1)))
        \<le> Suc (length (dict self1))"
      by (simp add: PyDict_SetItem_def length_update_le)
    with sz e(1,2) inv(2) show ?thesis
      unfolding s' by (simp add: cache_inv_def PyDict_Keys_def PyLFUCache_Size_def
          PyDict_Size_def PyDict_SetItem_def dist)
  qed
qed

lemma LFUCache_init_inv: "LFUCache_init cap = Inr self \<Longrightarrow> cache_inv self"
  by (auto simp: LFUCache_init_def cache_inv_def PyDict_Keys_def PyLFUCache_Size_def
      PyDict_Size_def split: if_splits)

lemma evict_loop_inv:
  assumes "evict_loop n self w = Some (Inr r, self', w')"
    and "distinct (PyDict_Keys (dict self))" and "int n \<le> PyLFUCache_Size self"
  shows "distinct (PyDict_Keys (dict self')) \<and> capacity self' = capacity self
    \<and> PyLFUCache_Size self' = PyLFUCache_Size self - int n"
  using assms
proof (induction n arbitrary: self w)
  case 0
  then show ?case by simp
next
  case (Suc n)
  from Suc.prems(1) obtain r1 self1 w1 where
    ev: "LFUCache_evict self w = Some (Inr r1, self1, w1)"
    and rest: "evict_loop n self1 w1 = Some (Inr r, self', w')"
    by (auto split: Option.bind_splits sum.splits)
  from Suc.prems(3) have ne: "dict self \<noteq> []"
    by (auto simp: PyLFUCache_Size_def PyDict_Size_def)
  from LFUCache_evict_inv [OF ev Suc.prems(2)] ne have
    e: "distinct (PyDict_Keys (dict self1))" "capacity self1 = capacity self"
      "PyLFUCache_Size self1 = PyLFUCache_Size self - 1"
    by simp_all
  have "int n \<le> PyLFUCache_Size self1" using e(3) Suc.prems(3) by simp
  from Suc.IH [OF rest e(1) this] e show ?case by simp
qed

lemma LFUCache_set_capacity_inv:
  assumes "LFUCache_set_capacity self cap w = Some (Inr r, self', w')" and "cache_inv self"
    and "PyLFUCache_Size self - cap < 2 ^ 31"
  shows "cache_inv self'"
proof -
  from assms(2) have inv: "distinct (PyDict_Keys (dict self))" "0 < capacity self"
      "PyLFUCache_Size self \<le> capacity self"
    by (simp_all add: cache_inv_def)
  from assms(1) have cap: "0 < cap"
    by (auto simp: LFUCache_set_capacity_def split: if_splits)
  show ?thesis
  proof (cases "cap < capacity self \<and> PyLFUCache_Size self > cap")
    case True
    let ?n = "nat (PyLFUCache_Size self - cap)"
    have small: "sint (word_of_int (PyLFUCache_Size self - cap) :: 32 word) = PyLFUCache_Size self - cap"
      using True assms(3) by (intro sint_small) simp_all
    from assms(1) True small obtain r1 self1 where
      loop: "evict_loop ?n self w = Some (Inr r1, self1, w')" and s': "self' = self1\<lparr>capacity := cap\<rparr>"
      by (auto simp: LFUCache_set_capacity_def split: if_splits Option.bind_splits sum.splits)
    have "int ?n \<le> PyLFUCache_Size self" using True cap by simp
    from evict_loop_inv [OF loop inv(1) this] True cap show ?thesis
      unfolding s' by (simp add: cache_inv_def PyLFUCache_Size_def)
  next
    case False
    with assms(1) have "self' = self\<lparr>capacity := cap\<rparr>"
      by (auto simp: LFUCache_set_capacity_def split: if_splits)
    with False inv cap show ?thesis
      by (auto simp: cache_inv_def PyLFUCache_Size_def)
  qed
qed

lemma update_loop_inv:
  "update_loop kvs self w = Some (Inr r, self', w') \<Longrightarrow> cache_inv self \<Longrightarrow> cache_inv self'"
proof (induction kvs arbitrary: self w)
  case Nil
  then show ?case by simp
next
  case (Cons kv kvs)
  obtain key val where kv: "kv = (key, val)" by (cases kv)
  from Cons.prems(1) obtain u self1 w1 where
    st: "PyLFUCache_SetItem self key val w = Some (Inr u, self1, w1)"
    and rest: "update_loop kvs self1 w1 = Some (Inr r, self', w')"
    unfolding kv by (auto split: Option.bind_splits sum.splits)
  from Cons.IH [OF rest PyLFUCache_SetItem_inv [OF st Cons.prems(2)]] show ?case .
qed

lemma LFUCache_update_inv:
  "LFUCache_update self arg kwargs w = Some (Inr r, self', w') \<Longrightarrow> cache_inv self
    \<Longrightarrow> cache_inv self'"
  by (auto simp: LFUCache_update_def split: Option.bind_splits sum.splits
      dest!: update_loop_inv)

lemma wrapper_store_inv: "cache_inv self \<Longrightarrow> cache_inv (self\<lparr>dict := wrapper_store (dict self) key wr\<rparr>)"
  by (simp add: cache_inv_def PyDict_Keys_def PyLFUCache_Size_def PyDict_Size_def
      map_fst_wrapper_store length_wrapper_store)

lemma LFUCache_setdefault_inv:
  "LFUCache_setdefault self key dflt w = Some (Inr r, self', w') \<Longrightarrow> cache_inv self
    \<Longrightarrow> cache_inv self'"
  by (auto simp: LFUCache_setdefault_def Let_def split_beta
      split: option.splits Option.bind_splits sum.splits
      dest: PyLFUCache_SetItem_inv intro: wrapper_store_inv)

lemma LFUCache_setnx_inv:
  "LFUCache_setnx self key cb w = Some (Inr r, self', w') \<Longrightarrow> cache_inv self
    \<Longrightarrow> cache_inv self'"
  by (auto simp: LFUCache_setnx_def Let_def split_beta
      split: option.splits Option.bind_splits sum.splits callback.splits
      dest: PyLFUCache_SetItem_inv intro: wrapper_store_inv)

lemma LFUCache_mp_subscript_inv:
  "cache_inv self \<Longrightarrow> cache_inv (fst (snd (LFUCache_mp_subscript self key w)))"
  by (auto simp: LFUCache_mp_subscript_def Let_def split_beta cache_inv_def PyDict_Keys_def
      PyLFUCache_Size_def PyDict_Size_def map_fst_wrapper_store length_wrapper_store
      split: option.splits)

lemma delete_inv: "cache_inv self \<Longrightarrow> cache_inv (self\<lparr>dict := AList.delete key (dict self)\<rparr>)"
  using AList.length_delete_le [of key "dict self"]
  by (simp add: cache_inv_def PyDict_Keys_def PyLFUCache_Size_def PyDict_Size_def
      AList.distinct_delete)

lemma PyLFUCache_DelItem_inv:
  "cache_inv self \<Longrightarrow> cache_inv (snd (PyLFUCache_DelItem self key))"
  by (auto simp: PyLFUCache_DelItem_def PyDict_DelItem_def
      split: option.splits sum.splits intro: delete_inv)

lemma LFUCache_pop_inv: "cache_inv self \<Longrightarrow> cache_inv (snd (LFUCache_pop self key dflt))"
  using PyLFUCache_DelItem_inv [of self key]
  by (auto simp: LFUCache_pop_def split: option.splits sum.splits prod.splits)

lemma values_loop_keys: "map fst (fst (snd (values_loop d w))) = map fst d"
  by (induction d arbitrary: w) (auto simp: split_beta Let_def)

lemma values_loop_length: "length (fst (snd (values_loop d w))) = length d"
  using arg_cong [OF values_loop_keys [of d w], of length] by simp

lemma LFUCache_values_inv: "cache_inv self \<Longrightarrow> cache_inv (fst (snd (LFUCache_values self w)))"
  by (simp add: values_loop_keys values_loop_length LFUCache_values_def split_beta cache_inv_def PyDict_Keys_def PyLFUCache_Size_def
      PyDict_Size_def)

lemma LFUCache_items_inv: "cache_inv self \<Longrightarrow> cache_inv (fst (snd (LFUCache_items self w)))"
  using LFUCache_values_inv [of self w]
  by (simp add: LFUCache_values_def LFUCache_items_def split_beta)

lemma LFUCache_clear_inv: "cache_inv self \<Longrightarrow> cache_inv (snd (LFUCache_clear self))"
  by (simp add: LFUCache_clear_def PyLFUCache_Clear_def cache_inv_def PyDict_Keys_def
      PyLFUCache_Size_def PyDict_Size_def)

text \<open>
  C6. The claim: after every operation that returns successfully the cache holds at most
  \<open>capacity\<close> entries. The lemmas above show this wherever the number of evictions of
  \<open>set_capacity\<close> is below \<open>2^31\<close>. \<open>set_capacity\<close> counts its evictions in an
  \<open>int\<close>: for the cache of \<open>2^31 + 1\<close> entries, which satisfies the invariant,
  \<open>set_capacity(1)\<close> computes the difference \<open>2^31\<close>, whose low 32 bits read as a
  negative \<open>int\<close>; the loop does not run, the call returns \<open>None\<close>, and the cache
  is left with \<open>2^31 + 1\<close> entries and capacity 1.
\<close>

theorem LFUCache_set_capacity_truncates:
  "cache_inv cache_huge
   \<and> LFUCache_set_capacity cache_huge 1 world_256 =
       Some (Inr Py_None, cache_huge\<lparr>capacity := 1\<rparr>, world_256)
   \<and> PyLFUCache_Size (cache_huge\<lparr>capacity := 1\<rparr>) = 2147483649
   \<and> capacity (cache_huge\<lparr>capacity := 1\<rparr>) = 1
   \<and> \<not> cache_inv (cache_huge\<lparr>capacity := 1\<rparr>)"
proof -
  have size: "PyLFUCache_Size cache_huge = 2147483649"
    by (simp add: cache_huge_def PyLFUCache_Size_def PyDict_Size_def)
  have inv: "cache_inv cache_huge"
    using size
    by (simp add: cache_inv_def PyDict_Keys_def)
      (simp add: cache_huge_def comp_def distinct_map inj_on_def)
  have size': "PyLFUCache_Size (cache_huge\<lparr>capacity := 1\<rparr>) = 2147483649"
    using size by (simp add: PyLFUCache_Size_def)
  have "LFUCache_set_capacity cache_huge 1 world_256 =
       Some (Inr Py_None, cache_huge\<lparr>capacity := 1\<rparr>, world_256)"
    using size inv by (simp add: LFUCache_set_capacity_def cache_inv_def)
  then show ?thesis using inv size' by (simp add: cache_inv_def)
qed

end
